theory Spec2Isabelle
  imports Main
begin

section \<open>Python built-ins used by the extractor\<close>

text \<open>
  The development follows \<^verbatim>\<open>src/core/ai_extractor.py\<close> (class
  \<^verbatim>\<open>LLMModuleExtractor\<close>). A Python \<^verbatim>\<open>str\<close> is a \<^typ>\<open>string\<close>, one
  \<^typ>\<open>char\<close> per code point (code points below 256). Python integers are \<^typ>\<open>int\<close>,
  lengths and indices are \<^typ>\<open>nat\<close>. A method name loses its leading underscore, which
  an Isabelle name cannot start with.
\<close>

text \<open>The exceptions that the model tells apart.\<close>

datatype py_error = ValueError | JSONDecodeError | RecursionError

text \<open>\<^verbatim>\<open>c.isspace()\<close> for a code point below 256.\<close>

definition isspace :: "char \<Rightarrow> bool" where
  "isspace c =
     (let n = (of_char c :: nat)
      in (9 \<le> n \<and> n \<le> 13) \<or> (28 \<le> n \<and> n \<le> 32) \<or> n = 133 \<or> n = 160)"

text \<open>\<^verbatim>\<open>s.strip()\<close>: leading and trailing whitespace removed.\<close>

definition py_strip :: "string \<Rightarrow> string" where
  "py_strip s = rev (dropWhile isspace (rev (dropWhile isspace s)))"

text \<open>
  \<^verbatim>\<open>s.split(sep)\<close> for a non-empty separator: the occurrences of \<open>sep\<close> are found from
  left to right without overlap. (Python raises on an empty separator; the source only
  passes the two-newline separator.)
\<close>

fun py_split :: "'a list \<Rightarrow> 'a list \<Rightarrow> 'a list list" where
  "py_split sep [] = [[]]"
| "py_split sep (c # cs) =
     (if sep \<noteq> [] \<and> take (length sep) (c # cs) = sep
      then [] # py_split sep (drop (length sep) (c # cs))
      else (case py_split sep cs of [] \<Rightarrow> [[c]] | b # bs \<Rightarrow> (c # b) # bs))"

text \<open>\<^verbatim>\<open>sep.join(xs)\<close>.\<close>

fun py_join :: "'a list \<Rightarrow> 'a list list \<Rightarrow> 'a list" where
  "py_join sep [] = []"
| "py_join sep [x] = x"
| "py_join sep (x # y # ys) = x @ sep @ py_join sep (y # ys)"

text \<open>\<^verbatim>\<open>xs[i:j]\<close> for \<open>0 \<le> i \<le> j\<close>: the slice is cut at the end of the list.\<close>

definition py_slice :: "'a list \<Rightarrow> nat \<Rightarrow> nat \<Rightarrow> 'a list" where
  "py_slice xs i j = take (j - i) (drop i xs)"

text \<open>
  \<^verbatim>\<open>range(0, stop, step)\<close> as the list it runs through: a zero step raises
  \<^verbatim>\<open>ValueError\<close>, a negative step from 0 gives nothing.
\<close>

definition py_range :: "nat \<Rightarrow> int \<Rightarrow> py_error + nat list" where
  "py_range stop step =
     (if step = 0 then Inl ValueError
      else if step < 0 then Inr []
      else Inr (map (\<lambda>k. k * nat step) [0 ..< (stop + nat step - 1) div nat step]))"

text \<open>\<^verbatim>\<open>str(n)\<close> of a non-negative integer, for the log messages.\<close>

definition digit_char :: "nat \<Rightarrow> char" where
  "digit_char d = char_of (48 + d)"

function str_nat :: "nat \<Rightarrow> string" where
  "str_nat n = (if n < 10 then [digit_char n] else str_nat (n div 10) @ [digit_char (n mod 10)])"
  by pat_completeness auto
termination
  by (relation "measure (\<lambda>n. n)") auto

declare str_nat.simps [simp del]

definition str_int :: "int \<Rightarrow> string" where
  "str_int i = (if i < 0 then CHR ''-'' # str_nat (nat (- i)) else str_nat (nat i))"

section \<open>The extractor object and its environment\<close>

text \<open>
  What the extractor reaches outside the repository is a parameter of the model:
  \<^item> the tiktoken encoding \<^verbatim>\<open>self.encoding\<close>, a function from a text to its token ids;
  \<^item> the OpenAI client \<^verbatim>\<open>self.client\<close>: one chat completion maps the requests made so far
    and the new request to its outcome, so the service may answer the same request
    differently at different times;
  \<^item> the logger, which appends to the log of the \<open>world\<close>.
  The constructor sets \<^verbatim>\<open>self.MAX_INPUT_TOKENS = 120000\<close>; the methods read the attribute,
  and so does the model.
\<close>

record request =
  req_model :: string
  req_system :: string
  req_user :: string

datatype api_outcome =
    Completion string
  | APIStatusError int string
  | OtherException string

datatype log_level = INFO | WARNING | ERROR

record world =
  calls :: "request list"
  logs :: "(log_level \<times> string) list"

record extractor =
  api_key :: string
  model_name :: string
  client :: "request list \<Rightarrow> request \<Rightarrow> api_outcome"
  encoding :: "string \<Rightarrow> nat list"
  MAX_INPUT_TOKENS :: int

definition logger :: "log_level \<Rightarrow> string \<Rightarrow> world \<Rightarrow> world" where
  "logger lvl msg w = w\<lparr>logs := logs w @ [(lvl, msg)]\<rparr>"

definition get_token_count :: "extractor \<Rightarrow> string \<Rightarrow> int" where
  "get_token_count self text = int (length (encoding self text))"

section \<open>The chunker\<close>

definition paragraph_sep :: string where
  "paragraph_sep = [CHR 0x0A, CHR 0x0A]"

text \<open>
  The force-split of an oversized block:
  \<^verbatim>\<open>for i in range(0, len(block), char_limit): chunks.append(block[i:i + char_limit])\<close>.
\<close>

definition force_split :: "string \<Rightarrow> int \<Rightarrow> py_error + string list" where
  "force_split block char_limit =
     (case py_range (length block) char_limit of
        Inl e \<Rightarrow> Inl e
      | Inr is \<Rightarrow> Inr (map (\<lambda>i. py_slice block i (i + nat char_limit)) is))"

text \<open>
  The loop over the blocks. Its state is the triple \<^verbatim>\<open>chunks\<close>,
  \<^verbatim>\<open>current_chunk_blocks\<close>, \<^verbatim>\<open>current_chunk_tokens\<close>.
\<close>

fun chunk_loop ::
  "extractor \<Rightarrow> int \<Rightarrow> string list \<Rightarrow> string list \<times> string list \<times> int
     \<Rightarrow> py_error + (string list \<times> string list \<times> int)" where
  "chunk_loop self max_tokens [] st = Inr st"
| "chunk_loop self max_tokens (block # text_blocks) (chunks, cur_blocks, cur_tokens) =
     (let block_tokens = get_token_count self block in
      if block_tokens > max_tokens then
        (let (chunks1, cur_blocks1, cur_tokens1) =
               (if cur_blocks \<noteq> []
                then (chunks @ [py_join paragraph_sep cur_blocks], [], 0)
                else (chunks, cur_blocks, cur_tokens));
             char_limit = max_tokens * 3
         in case force_split block char_limit of
              Inl e \<Rightarrow> Inl e
            | Inr slices \<Rightarrow>
                chunk_loop self max_tokens text_blocks (chunks1 @ slices, cur_blocks1, cur_tokens1))
      else
        (let (chunks1, cur_blocks1, cur_tokens1) =
               (if cur_tokens + block_tokens > max_tokens \<and> cur_blocks \<noteq> []
                then (chunks @ [py_join paragraph_sep cur_blocks], [], 0)
                else (chunks, cur_blocks, cur_tokens));
             cur_blocks2 = cur_blocks1 @ [block];
             cur_tokens2 = cur_tokens1 + get_token_count self (py_join paragraph_sep cur_blocks2)
         in chunk_loop self max_tokens text_blocks (chunks1, cur_blocks2, cur_tokens2)))"

definition chunk_text_by_tokens ::
  "extractor \<Rightarrow> string \<Rightarrow> int \<Rightarrow> world \<Rightarrow> (py_error + string list) \<times> world" where
  "chunk_text_by_tokens self text max_tokens w =
     (case chunk_loop self max_tokens (py_split paragraph_sep text) ([], [], 0) of
        Inl e \<Rightarrow> (Inl e, w)
      | Inr (chunks, cur_blocks, cur_tokens) \<Rightarrow>
          (let chunks1 =
                 (if cur_blocks \<noteq> [] then chunks @ [py_join paragraph_sep cur_blocks]
                  else chunks)
           in (Inr chunks1,
               logger INFO
                 (''Content was split into '' @ str_nat (length chunks1) @ '' chunk(s).'') w)))"

section \<open>JSON values and the json library\<close>

text \<open>
  What \<^verbatim>\<open>json.loads\<close> returns: \<^verbatim>\<open>None\<close>, a bool, an int, a float, a str, a list or a
  dict. A dict keeps its items in insertion order. The extractor never computes with a
  float, which is carried by its literal.
\<close>

datatype json =
    JNull
  | JBool bool
  | JInt int
  | JFloat string
  | JStr string
  | JList "json list"
  | JDict "(string \<times> json) list"

text \<open>
  The json library is a parameter too. \<open>loads\<close> is \<^verbatim>\<open>json.loads\<close>: it returns a value
  or raises. On a text that is not JSON it raises \<^verbatim>\<open>JSONDecodeError\<close>; it can also raise
  other exceptions, such as \<^verbatim>\<open>ValueError\<close> on an integer literal of more digits than the
  interpreter converts (4300 by default) and \<^verbatim>\<open>RecursionError\<close> on a deeply nested text.
  \<open>dumps\<close> is \<^verbatim>\<open>json.dumps(_, indent=2)\<close>.
\<close>

record json_module =
  loads :: "string \<Rightarrow> py_error + json"
  dumps :: "json \<Rightarrow> string"

section \<open>The response parser\<close>

text \<open>
  \<^verbatim>\<open>for key, value in data.items(): if isinstance(value, list): return value\<close>
\<close>

fun first_list_value :: "(string \<times> json) list \<Rightarrow> json list option" where
  "first_list_value [] = None"
| "first_list_value ((key, JList value) # items) = Some value"
| "first_list_value ((key, value) # items) = first_list_value items"

text \<open>
  The \<^verbatim>\<open>try\<close> block has one handler, \<^verbatim>\<open>except json.JSONDecodeError\<close>: that exception is
  logged and the empty list returned; any other exception of \<^verbatim>\<open>json.loads\<close> leaves the
  method.
\<close>

definition parse_llm_output ::
  "json_module \<Rightarrow> string \<Rightarrow> world \<Rightarrow> (py_error + json list) \<times> world" where
  \<open>parse_llm_output js response_text w =
     (if response_text = [] then (Inr [], w)
      else case loads js response_text of
        Inl JSONDecodeError \<Rightarrow>
          (Inr [],
           logger ERROR (''Failed to decode JSON from LLM response: '' @ response_text) w)
      | Inl e \<Rightarrow> (Inl e, w)
      | Inr (JList data) \<Rightarrow> (Inr data, w)
      | Inr (JDict items) \<Rightarrow>
          (case first_list_value items of
             Some value \<Rightarrow> (Inr value, w)
           | None \<Rightarrow>
               if ''module'' \<in> set (map fst items) \<and> ''Description'' \<in> set (map fst items)
               then (Inr [JDict items],
                     logger WARNING
                       ''LLM returned a single module object, wrapping it in a list.'' w)
               else (Inr [],
                     logger WARNING
                       (''Could not parse a valid module list from LLM response: ''
                          @ response_text) w))
      | Inr data \<Rightarrow>
          (Inr [],
           logger WARNING
             (''Could not parse a valid module list from LLM response: '' @ response_text)
             w))\<close>

section \<open>The gateway\<close>

definition get_extraction_prompt :: string where
  \<open>get_extraction_prompt =
      ''\<newline>'' @
      ''        You are an AI assistant analyzing a piece of website documentation. Your task is to identify and extract any product features (modules) and their specific functionalities (submodules) from the provided text.\<newline>'' @
      ''        Structure your output as a valid JSON. The JSON should be a list of objects.\<newline>'' @
      ''        Each object must have "module" (string), "Description" (string), and "Submodules" (an object).\<newline>'' @
      ''        Extract information ONLY from the provided text. If you find no modules, return an empty list [].\<newline>'' @
      ''        ''\<close>

definition get_synthesis_prompt :: string where
  \<open>get_synthesis_prompt =
      ''\<newline>'' @
      ''        You are a data synthesis AI. You will be given a JSON list of "modules" extracted from a website's documentation. This list is messy, containing many duplicates, fragments, and overlapping information because it was generated from small chunks of the full text.\<newline>'' @
      ''        Your task is to process this entire JSON list and produce a single, clean, de-duplicated, and logically structured final JSON list of modules.\<newline>'' @
      ''        - Merge duplicate modules (e.g., "Account Settings" and "Settings, Account").\<newline>'' @
      ''        - Combine descriptions for the same module to be more comprehensive.\<newline>'' @
      ''        - Merge submodules for the same module and de-duplicate them.\<newline>'' @
      ''        - Remove any irrelevant or clearly non-module entries.\<newline>'' @
      ''        - Ensure the final output is a valid JSON list of objects, with "module", "Description", and "Submodules" keys.\<newline>'' @
      ''        ''\<close>

text \<open>
  One chat completion. The request (model, system prompt, user content; the temperature 0
  and the JSON response format are the same in every request) is recorded in the world
  whether the call succeeds or raises. Both \<^verbatim>\<open>except\<close> clauses log and return the empty
  string. A completion without content (\<^verbatim>\<open>None\<close>) stands as the empty string: the callers
  only test the returned text for truth before anything else.
\<close>

definition mk_request :: "extractor \<Rightarrow> string \<Rightarrow> string \<Rightarrow> request" where
  "mk_request self system_prompt content =
     \<lparr>req_model = model_name self, req_system = system_prompt, req_user = content\<rparr>"

definition call_llm :: "extractor \<Rightarrow> string \<Rightarrow> string \<Rightarrow> world \<Rightarrow> string \<times> world" where
  "call_llm self content system_prompt w =
     (let req = mk_request self system_prompt content;
          w1 = w\<lparr>calls := calls w @ [req]\<rparr>
      in case client self (calls w) req of
           Completion text \<Rightarrow> (text, w1)
         | APIStatusError status_code body \<Rightarrow>
             ([], logger ERROR
                    (''OpenAI API status error: '' @ str_int status_code @ '' - '' @ body) w1)
         | OtherException e \<Rightarrow>
             ([], logger ERROR (''An unexpected error occurred during LLM call: '' @ e) w1))"

section \<open>The two-pass extractor\<close>

text \<open>
  The loop of Pass 1, \<^verbatim>\<open>for i, chunk in enumerate(chunks)\<close>; \<open>n\<close> is \<^verbatim>\<open>len(chunks)\<close>.
  An exception of the parser ends the loop and the method.
\<close>

fun pass1_loop ::
  "extractor \<Rightarrow> json_module \<Rightarrow> string \<Rightarrow> nat \<Rightarrow> nat \<Rightarrow> string list \<Rightarrow> json list \<Rightarrow> world
     \<Rightarrow> (py_error + json list) \<times> world" where
  "pass1_loop self js extraction_prompt n i [] all_raw_modules w = (Inr all_raw_modules, w)"
| "pass1_loop self js extraction_prompt n i (chunk # chunks) all_raw_modules w =
     (let w1 = logger INFO
                 (''Processing chunk '' @ str_nat (i + 1) @ ''/'' @ str_nat n @ '' in Pass 1.'') w;
          (response_text, w2) = call_llm self chunk extraction_prompt w1
      in case parse_llm_output js response_text w2 of
           (Inl e, w3) \<Rightarrow> (Inl e, w3)
         | (Inr parsed_chunk_modules, w3) \<Rightarrow>
             (let all_raw_modules1 =
                    (if parsed_chunk_modules \<noteq> [] then all_raw_modules @ parsed_chunk_modules
                     else all_raw_modules)
              in pass1_loop self js extraction_prompt n (i + 1) chunks all_raw_modules1 w3))"

definition extract_raw_modules_from_chunks ::
  "extractor \<Rightarrow> json_module \<Rightarrow> string \<Rightarrow> world \<Rightarrow> (py_error + string) \<times> world" where
  "extract_raw_modules_from_chunks self js text w =
     (case chunk_text_by_tokens self text (MAX_INPUT_TOKENS self) w of
        (Inl e, w1) \<Rightarrow> (Inl e, w1)
      | (Inr chunks, w1) \<Rightarrow>
          (case pass1_loop self js get_extraction_prompt (length chunks) 0 chunks [] w1 of
             (Inl e, w2) \<Rightarrow> (Inl e, w2)
           | (Inr all_raw_modules, w2) \<Rightarrow> (Inr (dumps js (JList all_raw_modules)), w2)))"

text \<open>
  In the fallback \<^verbatim>\<open>json.loads\<close> is called outside any \<^verbatim>\<open>try\<close>, so each of its
  exceptions leaves the method.
\<close>

definition synthesize_and_clean_modules ::
  "extractor \<Rightarrow> json_module \<Rightarrow> string \<Rightarrow> world \<Rightarrow> (py_error + json) \<times> world" where
  "synthesize_and_clean_modules self js raw_modules_json w =
     (let num_tokens = get_token_count self raw_modules_json in
      if num_tokens > MAX_INPUT_TOKENS self then
        (let w1 = logger WARNING
                    (''Cannot perform synthesis pass: raw module data is too large (''
                       @ str_int num_tokens @ '' tokens). Returning raw data.'') w
         in case loads js raw_modules_json of
              Inl e \<Rightarrow> (Inl e, w1)
            | Inr data \<Rightarrow> (Inr data, w1))
      else
        (let (final_response_text, w1) = call_llm self raw_modules_json get_synthesis_prompt w
         in case parse_llm_output js final_response_text w1 of
              (Inl e, w2) \<Rightarrow> (Inl e, w2)
            | (Inr final_modules, w2) \<Rightarrow> (Inr (JList final_modules), w2)))"

text \<open>
  The method \<^verbatim>\<open>extract\<close>. Its name is a keyword of Isabelle, so the constant is
  \<open>extract_modules\<close>.
\<close>

definition extract_modules ::
  "extractor \<Rightarrow> json_module \<Rightarrow> string \<Rightarrow> world \<Rightarrow> (py_error + json) \<times> world" where
  "extract_modules self js consolidated_text w =
     (if py_strip consolidated_text = []
      then (Inr (JList []),
            logger WARNING ''Extractor received empty text. Nothing to process.'' w)
      else
        (let w1 = logger INFO ''Starting Pass 1: Raw module extraction.'' w in
         case extract_raw_modules_from_chunks self js consolidated_text w1 of
           (Inl e, w2) \<Rightarrow> (Inl e, w2)
         | (Inr raw_modules_json_string, w2) \<Rightarrow>
             if raw_modules_json_string = [] \<or> raw_modules_json_string = ''[]''
             then (Inr (JList []), logger WARNING ''Pass 1 did not yield any modules.'' w2)
             else
               (let w3 = logger INFO
                           ''Starting Pass 2: Synthesizing and cleaning modules.'' w2
                in synthesize_and_clean_modules self js raw_modules_json_string w3)))"

section \<open>A concrete environment\<close>

text \<open>
  The theorems below hold for every tokenizer, client and json library. To run the model
  on concrete inputs, this section fixes one of each: a small tokenizer, stub clients, and
  a JSON serialiser and decoder.
\<close>

text \<open>
  A tokenizer in which every character is one token, except that a run of newlines is a
  single token (the token of its last newline).
\<close>

fun demo_encoding :: "string \<Rightarrow> nat list" where
  "demo_encoding [] = []"
| "demo_encoding [c] = [of_char c]"
| "demo_encoding (c # d # cs) =
     (if c = CHR 0x0A \<and> d = CHR 0x0A then demo_encoding (d # cs)
      else of_char c # demo_encoding (d # cs))"

text \<open>
  The serialiser, after \<^verbatim>\<open>json.dumps(obj, indent=2)\<close>: an empty list or dict is \<^verbatim>\<open>[]\<close> or
  \<^verbatim>\<open>{}\<close>, otherwise every item is on a line of its own, indented by two spaces per level,
  with \<^verbatim>\<open>,\<close> between items and \<^verbatim>\<open>: \<close> after a key. A string is quoted, with the escapes of
  \<^verbatim>\<open>ensure_ascii\<close>.
\<close>

definition hex_digit :: "nat \<Rightarrow> char" where
  "hex_digit d = (if d < 10 then char_of (48 + d) else char_of (87 + d))"

definition escape_char :: "char \<Rightarrow> string" where
  "escape_char c =
     (let n = (of_char c :: nat) in
      if n = 34 then [CHR 0x5C, CHR 0x22]
      else if n = 92 then [CHR 0x5C, CHR 0x5C]
      else if n = 10 then [CHR 0x5C, CHR ''n'']
      else if n = 13 then [CHR 0x5C, CHR ''r'']
      else if n = 9 then [CHR 0x5C, CHR ''t'']
      else if n = 8 then [CHR 0x5C, CHR ''b'']
      else if n = 12 then [CHR 0x5C, CHR ''f'']
      else if n < 32 \<or> 126 < n
        then [CHR 0x5C, CHR ''u'', CHR ''0'', CHR ''0'', hex_digit (n div 16), hex_digit (n mod 16)]
      else [c])"

definition quote :: "string \<Rightarrow> string" where
  "quote s = CHR 0x22 # concat (map escape_char s) @ [CHR 0x22]"

definition newline_indent :: "nat \<Rightarrow> string" where
  "newline_indent level = CHR 0x0A # replicate (2 * level) CHR '' ''"

fun dumps_at :: "nat \<Rightarrow> json \<Rightarrow> string" where
  "dumps_at level JNull = ''null''"
| "dumps_at level (JBool b) = (if b then ''true'' else ''false'')"
| "dumps_at level (JInt i) = str_int i"
| "dumps_at level (JFloat repr) = repr"
| "dumps_at level (JStr s) = quote s"
| "dumps_at level (JList xs) =
     (if xs = [] then ''[]''
      else ''['' @ newline_indent (level + 1)
           @ py_join ('','' @ newline_indent (level + 1)) (map (dumps_at (level + 1)) xs)
           @ newline_indent level @ '']'')"
| "dumps_at level (JDict items) =
     (if items = [] then ''{}''
      else ''{'' @ newline_indent (level + 1)
           @ py_join ('','' @ newline_indent (level + 1))
               (map (\<lambda>(k, v). quote k @ '': '' @ dumps_at (level + 1) v) items)
           @ newline_indent level @ ''}'')"

definition json_dumps :: "json \<Rightarrow> string" where
  "json_dumps v = dumps_at 0 v"

text \<open>
  The decoder, after \<^verbatim>\<open>json.loads\<close>: a recursive-descent parser of the JSON grammar
  (Python's also reads \<^verbatim>\<open>NaN\<close> and the infinities). A text outside the grammar raises
  \<^verbatim>\<open>JSONDecodeError\<close>; an integer literal of more than 4300 digits raises
  \<^verbatim>\<open>ValueError\<close>, as the conversion of the interpreter does. The nesting limit of the
  interpreter is not reproduced. An escape \<^verbatim>\<open>\uXXXX\<close> is read when its
  code point is below 256. A duplicate key keeps its first position and takes the last
  value, as a Python dict does. The fuel bounds the depth of the recursion, which stays
  below the length of the text: an opening bracket costs two calls and its closing
  bracket none, a further item costs one call and at least two characters.
\<close>

definition is_ws :: "char \<Rightarrow> bool" where
  "is_ws c = (c = CHR '' '' \<or> c = CHR 0x09 \<or> c = CHR 0x0A \<or> c = CHR 0x0D)"

definition skip_ws :: "string \<Rightarrow> string" where
  "skip_ws s = dropWhile is_ws s"

definition is_digit :: "char \<Rightarrow> bool" where
  "is_digit c = (48 \<le> (of_char c :: nat) \<and> (of_char c :: nat) \<le> 57)"

definition hex_val :: "char \<Rightarrow> nat option" where
  "hex_val c =
     (let n = (of_char c :: nat) in
      if 48 \<le> n \<and> n \<le> 57 then Some (n - 48)
      else if 97 \<le> n \<and> n \<le> 102 then Some (n - 87)
      else if 65 \<le> n \<and> n \<le> 70 then Some (n - 55)
      else None)"

definition unescape :: "char \<Rightarrow> char option" where
  "unescape e =
     (if e = CHR 0x22 then Some (CHR 0x22)
      else if e = CHR 0x5C then Some (CHR 0x5C)
      else if e = CHR ''/'' then Some (CHR ''/'')
      else if e = CHR ''b'' then Some (CHR 0x08)
      else if e = CHR ''f'' then Some (CHR 0x0C)
      else if e = CHR ''n'' then Some (CHR 0x0A)
      else if e = CHR ''r'' then Some (CHR 0x0D)
      else if e = CHR ''t'' then Some (CHR 0x09)
      else None)"

fun parse_string :: "string \<Rightarrow> string \<Rightarrow> (string \<times> string) option" where
  "parse_string acc [] = None"
| "parse_string acc (c # cs) =
     (if c = CHR 0x22 then Some (rev acc, cs)
      else if c = CHR 0x5C then
        (case cs of
           [] \<Rightarrow> None
         | e # cs1 \<Rightarrow>
             if e = CHR ''u'' then
               (case cs1 of
                  h1 # h2 # h3 # h4 # cs2 \<Rightarrow>
                    (case (hex_val h1, hex_val h2, hex_val h3, hex_val h4) of
                       (Some a, Some b, Some c, Some d) \<Rightarrow>
                         if a = 0 \<and> b = 0 then parse_string (char_of (16 * c + d) # acc) cs2
                         else None
                     | _ \<Rightarrow> None)
                | _ \<Rightarrow> None)
             else (case unescape e of
                     Some x \<Rightarrow> parse_string (x # acc) cs1
                   | None \<Rightarrow> None))
      else if (of_char c :: nat) < 32 then None
      else parse_string (c # acc) cs)"

definition digits_val :: "string \<Rightarrow> int" where
  "digits_val ds = foldl (\<lambda>a d. 10 * a + (int (of_char d) - 48)) 0 ds"

definition parse_number :: "string \<Rightarrow> py_error + (json \<times> string)" where
  "parse_number s =
     (let (sign, s1) = (if s \<noteq> [] \<and> hd s = CHR ''-'' then (''-'', tl s) else ('''', s));
          ds = (if s1 \<noteq> [] \<and> hd s1 = CHR ''0'' then ''0'' else takeWhile is_digit s1);
          s2 = drop (length ds) s1;
          frac = (case s2 of
                    p # s3 \<Rightarrow> if p = CHR ''.'' \<and> takeWhile is_digit s3 \<noteq> []
                               then p # takeWhile is_digit s3 else []
                  | [] \<Rightarrow> []);
          s4 = drop (length frac) s2;
          ex = (case s4 of
                  e # s5 \<Rightarrow>
                    if e = CHR ''e'' \<or> e = CHR ''E'' then
                      (let sg = (if s5 \<noteq> [] \<and> (hd s5 = CHR ''+'' \<or> hd s5 = CHR ''-'')
                                 then [hd s5] else []);
                           es = takeWhile is_digit (drop (length sg) s5)
                       in if es = [] then [] else e # sg @ es)
                    else []
                | [] \<Rightarrow> []);
          s6 = drop (length ex) s4
      in if ds = [] then Inl JSONDecodeError
         else if frac = [] \<and> ex = []
           then (if length ds > 4300 then Inl ValueError
                 else Inr (JInt (if sign = [] then digits_val ds else - digits_val ds), s6))
         else Inr (JFloat (sign @ ds @ frac @ ex), s6))"

fun dict_set :: "(string \<times> json) list \<Rightarrow> string \<Rightarrow> json \<Rightarrow> (string \<times> json) list" where
  "dict_set [] k v = [(k, v)]"
| "dict_set ((k', v') # items) k v =
     (if k' = k then (k, v) # items else (k', v') # dict_set items k v)"

fun parse_value :: "nat \<Rightarrow> string \<Rightarrow> py_error + (json \<times> string)"
  and parse_array :: "nat \<Rightarrow> json list \<Rightarrow> string \<Rightarrow> py_error + (json \<times> string)"
  and parse_object :: "nat \<Rightarrow> (string \<times> json) list \<Rightarrow> string \<Rightarrow> py_error + (json \<times> string)" where
  "parse_value 0 s = Inl JSONDecodeError"
| "parse_value (Suc fuel) s =
     (case s of
        [] \<Rightarrow> Inl JSONDecodeError
      | c # cs \<Rightarrow>
          if c = CHR 0x22 then
            (case parse_string [] cs of
               Some (x, r) \<Rightarrow> Inr (JStr x, r)
             | None \<Rightarrow> Inl JSONDecodeError)
          else if c = CHR ''['' then
            (case skip_ws cs of
               [] \<Rightarrow> Inl JSONDecodeError
             | d # r \<Rightarrow> if d = CHR '']'' then Inr (JList [], r) else parse_array fuel [] (d # r))
          else if c = CHR ''{'' then
            (case skip_ws cs of
               [] \<Rightarrow> Inl JSONDecodeError
             | d # r \<Rightarrow> if d = CHR ''}'' then Inr (JDict [], r) else parse_object fuel [] (d # r))
          else if take 4 s = ''null'' then Inr (JNull, drop 4 s)
          else if take 4 s = ''true'' then Inr (JBool True, drop 4 s)
          else if take 5 s = ''false'' then Inr (JBool False, drop 5 s)
          else if take 3 s = ''NaN'' then Inr (JFloat ''NaN'', drop 3 s)
          else if take 8 s = ''Infinity'' then Inr (JFloat ''Infinity'', drop 8 s)
          else if take 9 s = ''-Infinity'' then Inr (JFloat ''-Infinity'', drop 9 s)
          else parse_number s)"
| "parse_array 0 acc s = Inl JSONDecodeError"
| "parse_array (Suc fuel) acc s =
     (case parse_value fuel s of
        Inl e \<Rightarrow> Inl e
      | Inr (v, r) \<Rightarrow>
          (case skip_ws r of
             [] \<Rightarrow> Inl JSONDecodeError
           | d # r1 \<Rightarrow>
               if d = CHR '','' then parse_array fuel (acc @ [v]) (skip_ws r1)
               else if d = CHR '']'' then Inr (JList (acc @ [v]), r1)
               else Inl JSONDecodeError))"
| "parse_object 0 acc s = Inl JSONDecodeError"
| "parse_object (Suc fuel) acc s =
     (case s of
        [] \<Rightarrow> Inl JSONDecodeError
      | q # r \<Rightarrow>
          if q \<noteq> CHR 0x22 then Inl JSONDecodeError
          else
            (case parse_string [] r of
               None \<Rightarrow> Inl JSONDecodeError
             | Some (k, r1) \<Rightarrow>
                 (case skip_ws r1 of
                    [] \<Rightarrow> Inl JSONDecodeError
                  | col # r2 \<Rightarrow>
                      if col \<noteq> CHR '':'' then Inl JSONDecodeError
                      else
                        (case parse_value fuel (skip_ws r2) of
                           Inl e \<Rightarrow> Inl e
                         | Inr (v, r3) \<Rightarrow>
                             (case skip_ws r3 of
                                [] \<Rightarrow> Inl JSONDecodeError
                              | d # r4 \<Rightarrow>
                                  if d = CHR '','' then parse_object fuel (dict_set acc k v) (skip_ws r4)
                                  else if d = CHR ''}'' then Inr (JDict (dict_set acc k v), r4)
                                  else Inl JSONDecodeError)))))"

definition json_loads :: "string \<Rightarrow> py_error + json" where
  "json_loads s =
     (case parse_value (Suc (length s)) (skip_ws s) of
        Inl e \<Rightarrow> Inl e
      | Inr (v, r) \<Rightarrow> if skip_ws r = [] then Inr v else Inl JSONDecodeError)"


definition py_json :: json_module where
  "py_json = \<lparr>loads = json_loads, dumps = json_dumps\<rparr>"

text \<open>
  A stub client: it answers every Pass-1 request (the one with the extraction prompt)
  with the same completion, and any other request with a given outcome.
\<close>

definition stub_client :: "string \<Rightarrow> api_outcome \<Rightarrow> request list \<Rightarrow> request \<Rightarrow> api_outcome" where
  "stub_client pass1_reply pass2_outcome history req =
     (if req_system req = get_extraction_prompt then Completion pass1_reply
      else pass2_outcome)"

definition demo_extractor ::
  "(request list \<Rightarrow> request \<Rightarrow> api_outcome) \<Rightarrow> int \<Rightarrow> extractor" where
  "demo_extractor c budget =
     \<lparr>api_key = ''sk-test'', model_name = ''gpt-4o'', client = c,
      encoding = demo_encoding, MAX_INPUT_TOKENS = budget\<rparr>"

definition world0 :: world where
  "world0 = \<lparr>calls = [], logs = []\<rparr>"

text \<open>An extractor with the budget of the constructor, whose client always answers \<^verbatim>\<open>[]\<close>.\<close>

definition demo :: extractor where
  "demo = demo_extractor (stub_client ''[]'' (Completion ''[]'')) 120000"

text \<open>
  The text the claim on a single module object names, and the same object under the keys
  that the prompts ask for.
\<close>

definition single_module_text :: string where
  \<open>single_module_text = ''{"module":"A","Description":"d","Submodules":{}}''\<close>

definition claimed_module_text :: string where
  \<open>claimed_module_text = ''{"module":"A","description":"d","submodules":{}}''\<close>

text \<open>
  A one-block text, a Pass-1 completion holding one module record, the record list it
  parses to, and an extractor with that completion whose Pass-2 call fails.
\<close>

definition billing_text :: string where
  "billing_text = ''## Billing\<newline>Manage billing.''"

definition billing_reply :: string where
  \<open>billing_reply = ''[{"module":"Billing","Description":"Manage billing.","Submodules":{}}]''\<close>

definition billing_raw :: "json list" where
  "billing_raw =
     [JDict [(''module'', JStr ''Billing''), (''Description'', JStr ''Manage billing.''),
             (''Submodules'', JDict [])]]"



text \<open>
  A text of two blocks, each over a budget of 10 tokens and within the 30 characters of a
  slice, so that each is one chunk. The client answers the first chunk with a list of one
  record and the second with a mapping that wraps a list of two.
\<close>

definition search_text :: string where
  "search_text = ''## Search\<newline>Find documents.''"

definition two_page_text :: string where
  "two_page_text = billing_text @ paragraph_sep @ search_text"

definition search_reply :: string where
  \<open>search_reply =
     ''{"modules":[{"module":"Search","Description":"Find documents.","Submodules":{}},'' @
     ''{"module":"Filters","Description":"Narrow a search.","Submodules":{}}]}''\<close>

definition search_raw :: "json list" where
  "search_raw =
     [JDict [(''module'', JStr ''Search''), (''Description'', JStr ''Find documents.''),
             (''Submodules'', JDict [])],
      JDict [(''module'', JStr ''Filters''), (''Description'', JStr ''Narrow a search.''),
             (''Submodules'', JDict [])]]"

definition two_page_client :: "request list \<Rightarrow> request \<Rightarrow> api_outcome" where
  "two_page_client history req =
     (if req_system req = get_extraction_prompt
      then (if req_user req = billing_text then Completion billing_reply
            else Completion search_reply)
      else Completion ''[]'')"

definition two_page :: extractor where
  "two_page = demo_extractor two_page_client 10"

definition after_chunking2 :: world where
  "after_chunking2 =
     logger INFO ''Content was split into 2 chunk(s).''
       (logger INFO ''Starting Pass 1: Raw module extraction.'' world0)"




text \<open>An integer literal of 4301 digits.\<close>

definition long_integer_text :: string where
  "long_integer_text = replicate 4301 CHR ''1''"

section \<open>Notions used in the statements\<close>


text \<open>The text that the gateway returns for a request made after the given requests.\<close>

definition reply_text :: "extractor \<Rightarrow> request list \<Rightarrow> request \<Rightarrow> string" where
  "reply_text self history req =
     (case client self history req of Completion text \<Rightarrow> text | _ \<Rightarrow> [])"

text \<open>
  The records that the parser yields for a response text (none when it raises). They do
  not depend on the world.
\<close>

definition parsed_records :: "json_module \<Rightarrow> string \<Rightarrow> json list" where
  "parsed_records js response_text =
     (case fst (parse_llm_output js response_text world0) of
        Inr records \<Rightarrow> records
      | Inl e \<Rightarrow> [])"

text \<open>
  The records of Pass 1, chunk by chunk: for each chunk in order, the parse of what the
  gateway returns for the extraction request of that chunk, made after the requests of
  the chunks before it.
\<close>

fun chunk_records ::
  "extractor \<Rightarrow> json_module \<Rightarrow> request list \<Rightarrow> string list \<Rightarrow> json list list" where
  "chunk_records self js history [] = []"
| "chunk_records self js history (chunk # chunks) =
     parsed_records js (reply_text self history (mk_request self get_extraction_prompt chunk))
       # chunk_records self js (history @ [mk_request self get_extraction_prompt chunk]) chunks"

text \<open>
  What the chunker holds when the loop ends becomes the chunk list by the final
  \<^verbatim>\<open>if current_chunk_blocks: chunks.append(...)\<close>.
\<close>

definition finish :: "string list \<times> string list \<times> int \<Rightarrow> string list" where
  "finish st =
     (case st of (chunks, cur_blocks, cur_tokens) \<Rightarrow>
        if cur_blocks \<noteq> [] then chunks @ [py_join paragraph_sep cur_blocks] else chunks)"

text \<open>
  The chunk list is a sequence of pieces. A piece is either a run of blocks emitted as one
  chunk, joined by the separator, or one oversized block emitted as its slices.
\<close>

datatype piece = Joined "string list" | Forced string "string list"

fun chunks_of_piece :: "piece \<Rightarrow> string list" where
  "chunks_of_piece (Joined blocks) = [py_join paragraph_sep blocks]"
| "chunks_of_piece (Forced block slices) = slices"

fun blocks_of_piece :: "piece \<Rightarrow> string list" where
  "blocks_of_piece (Joined blocks) = blocks"
| "blocks_of_piece (Forced block slices) = [block]"

fun piece_ok :: "extractor \<Rightarrow> int \<Rightarrow> piece \<Rightarrow> bool" where
  "piece_ok self max_tokens (Joined blocks) =
     (blocks \<noteq> [] \<and> list_all (\<lambda>b. get_token_count self b \<le> max_tokens) blocks)"
| "piece_ok self max_tokens (Forced block slices) =
     (get_token_count self block > max_tokens
      \<and> force_split block (max_tokens * 3) = Inr slices \<and> concat slices = block)"

text \<open>The blocks of a joined chunk are found again by splitting the chunk.\<close>

fun piece_resplits :: "piece \<Rightarrow> bool" where
  "piece_resplits (Joined blocks) =
     (py_split paragraph_sep (py_join paragraph_sep blocks) = blocks)"
| "piece_resplits (Forced block slices) = True"

text \<open>
  A block list as \<^verbatim>\<open>split\<close> produces it: no block contains the separator, and no block
  but the last ends with a newline.
\<close>

fun has_sep :: "string \<Rightarrow> bool" where
  "has_sep (c # d # cs) = ((c = CHR 0x0A \<and> d = CHR 0x0A) \<or> has_sep (d # cs))"
| "has_sep cs = False"

fun wf_blocks :: "string list \<Rightarrow> bool" where
  "wf_blocks [] = True"
| "wf_blocks [b] = (\<not> has_sep b)"
| "wf_blocks (b # b' # bs) =
     (\<not> has_sep b \<and> (b = [] \<or> last b \<noteq> CHR 0x0A) \<and> wf_blocks (b' # bs))"

section \<open>Strings: split, join and slices\<close>

lemma py_split_not_Nil: "py_split sep s \<noteq> []"
  by (induction sep s rule: py_split.induct) (auto split: list.splits)

lemma py_join_Cons: "bs \<noteq> [] \<Longrightarrow> py_join sep (b # bs) = b @ sep @ py_join sep bs"
  by (cases bs) auto

lemma py_join_split: "sep \<noteq> [] \<Longrightarrow> py_join sep (py_split sep s) = s"
proof (induction sep s rule: py_split.induct)
  case (1 sep)
  then show ?case by simp
next
  case (2 sep c cs)
  show ?case
  proof (cases "take (length sep) (c # cs) = sep")
    case True
    have e: "sep @ drop (length sep) (c # cs) = c # cs"
      by (metis True append_take_drop_id)
    have "py_join sep ([] # py_split sep (drop (length sep) (c # cs)))
            = sep @ py_join sep (py_split sep (drop (length sep) (c # cs)))"
      by (simp add: py_join_Cons py_split_not_Nil)
    also have "\<dots> = sep @ drop (length sep) (c # cs)"
      using 2 True by simp
    finally have "py_join sep ([] # py_split sep (drop (length sep) (c # cs))) = c # cs"
      using e by simp
    moreover have "py_split sep (c # cs) = [] # py_split sep (drop (length sep) (c # cs))"
      using True 2 by simp
    ultimately show ?thesis by simp
  next
    case False
    then obtain b bs where s: "py_split sep cs = b # bs"
      using py_split_not_Nil[of sep cs] by (cases "py_split sep cs") auto
    have "py_join sep (b # bs) = cs" using 2 False s by simp
    then have "py_join sep ((c # b) # bs) = c # cs"
      by (cases bs) auto
    then show ?thesis using False s by simp
  qed
qed

lemma ceil_bound: "0 < n \<Longrightarrow> (l::nat) \<le> ((l + n - 1) div n) * n"
proof -
  assume n: "0 < n"
  have "l + n - 1 = ((l + n - 1) div n) * n + (l + n - 1) mod n" by simp
  moreover have "(l + n - 1) mod n \<le> n - 1" using n
    by (metis Suc_pred' less_Suc_eq_le mod_less_divisor)
  ultimately show ?thesis using n by linarith
qed

lemma concat_slices:
  "0 < n \<Longrightarrow> length b \<le> k * n \<Longrightarrow>
   concat (map (\<lambda>j. py_slice b (j * n) (j * n + n)) [0 ..< k]) = b"
proof (induction k arbitrary: b)
  case 0
  then show ?case by simp
next
  case (Suc k)
  have "[0 ..< Suc k] = 0 # map Suc [0 ..< k]"
    by (simp add: upt_conv_Cons map_Suc_upt del: upt_Suc)
  then have "concat (map (\<lambda>j. py_slice b (j * n) (j * n + n)) [0 ..< Suc k])
           = take n b @ concat (map (\<lambda>j. py_slice b (Suc j * n) (Suc j * n + n)) [0 ..< k])"
    by (simp add: py_slice_def comp_def del: upt_Suc)
  also have "(\<lambda>j. py_slice b (Suc j * n) (Suc j * n + n))
           = (\<lambda>j. py_slice (drop n b) (j * n) (j * n + n))"
    by (auto simp: py_slice_def add.commute)
  also have "concat (map (\<lambda>j. py_slice (drop n b) (j * n) (j * n + n)) [0 ..< k]) = drop n b"
    using Suc by simp
  finally show ?case by simp
qed

lemma force_split_pos:
  assumes "0 < char_limit"
  shows "\<exists>slices. force_split block char_limit = Inr slices \<and> concat slices = block"
proof -
  let ?n = "nat char_limit"
  have n: "0 < ?n" using assms by simp
  have "concat (map (\<lambda>j. py_slice block (j * ?n) (j * ?n + ?n))
          [0 ..< (length block + ?n - 1) div ?n]) = block"
    using concat_slices[OF n ceil_bound[OF n]] by simp
  then show ?thesis using assms
    by (simp add: force_split_def py_range_def comp_def)
qed

lemma split_para_Cons:
  "py_split paragraph_sep (c # cs) =
     (if c = CHR 0x0A \<and> (\<exists>r. cs = CHR 0x0A # r) then [] # py_split paragraph_sep (tl cs)
      else (case py_split paragraph_sep cs of [] \<Rightarrow> [[c]] | b # bs \<Rightarrow> (c # b) # bs))"
  by (cases cs) (auto simp: paragraph_sep_def)

lemma split_para_hd:
  "py_split paragraph_sep cs = (d # b) # bs \<Longrightarrow> \<exists>r. cs = d # r"
  by (cases cs) (auto simp: split_para_Cons simp del: py_split.simps(2) split: if_splits list.splits)

lemma split_para_empty_first:
  "py_split paragraph_sep cs = [] # bs \<Longrightarrow> bs \<noteq> [] \<Longrightarrow> \<exists>r. cs = CHR 0x0A # CHR 0x0A # r"
  by (cases cs) (auto simp: split_para_Cons simp del: py_split.simps(2) split: if_splits list.splits)

lemma has_sep_Cons:
  "has_sep (c # b) = ((c = CHR 0x0A \<and> (\<exists>r. b = CHR 0x0A # r)) \<or> has_sep b)"
  by (cases b) auto

lemma wf_blocks_Cons:
  "wf_blocks (b # bs) = (\<not> has_sep b \<and> (bs \<noteq> [] \<longrightarrow> b = [] \<or> last b \<noteq> CHR 0x0A) \<and> wf_blocks bs)"
  by (cases bs) auto

lemma wf_blocks_split: "wf_blocks (py_split paragraph_sep s)"
proof (induction "length s" arbitrary: s rule: less_induct)
  case less
  show ?case
  proof (cases s)
    case Nil
    then show ?thesis by simp
  next
    case (Cons c cs)
    show ?thesis
    proof (cases "c = CHR 0x0A \<and> (\<exists>r. cs = CHR 0x0A # r)")
      case True
      then obtain r where r: "cs = CHR 0x0A # r" by blast
      have "wf_blocks (py_split paragraph_sep r)"
        using less[of r] Cons r by simp
      then show ?thesis
        using True r Cons by (simp add: split_para_Cons wf_blocks_Cons del: py_split.simps(2))
    next
      case False
      obtain b bs where sp: "py_split paragraph_sep cs = b # bs"
        using py_split_not_Nil[of paragraph_sep cs] by (cases "py_split paragraph_sep cs") auto
      have wf: "wf_blocks (b # bs)"
        using less[of cs] Cons sp by simp
      have 1: "\<not> has_sep (c # b)"
      proof
        assume "has_sep (c # b)"
        then have "c = CHR 0x0A \<and> (\<exists>r. b = CHR 0x0A # r)"
          using wf by (simp add: has_sep_Cons wf_blocks_Cons)
        then show False using False sp split_para_hd[of cs "CHR 0x0A" _ bs] by auto
      qed
      have 2: "last (c # b) \<noteq> CHR 0x0A" if more: "bs \<noteq> []"
      proof (cases "b = []")
        case True
        then obtain r where "cs = CHR 0x0A # CHR 0x0A # r"
          using split_para_empty_first[of cs bs] sp more by auto
        then show ?thesis using False True by auto
      next
        case nonempty: False
        then show ?thesis using wf more by (simp add: wf_blocks_Cons)
      qed
      have eq: "py_split paragraph_sep (c # cs) = (c # b) # bs"
        by (subst split_para_Cons, subst if_not_P[OF False]) (simp add: sp)
      show ?thesis
        unfolding Cons eq using wf 1 2 by (simp add: wf_blocks_Cons)
    qed
  qed
qed

lemma split_no_sep: "\<not> has_sep b \<Longrightarrow> py_split paragraph_sep b = [b]"
proof (induction b)
  case Nil
  show ?case by simp
next
  case (Cons c b)
  then show ?case by (auto simp: split_para_Cons has_sep_Cons simp del: py_split.simps(2))
qed

lemma split_block_sep:
  "\<not> has_sep b \<Longrightarrow> b = [] \<or> last b \<noteq> CHR 0x0A \<Longrightarrow>
   py_split paragraph_sep (b @ paragraph_sep @ r) = b # py_split paragraph_sep r"
proof (induction b)
  case Nil
  show ?case by (simp add: paragraph_sep_def)
next
  case (Cons c b)
  have ih: "py_split paragraph_sep (b @ paragraph_sep @ r) = b # py_split paragraph_sep r"
    using Cons by (auto simp: has_sep_Cons split: if_splits)
  have "\<not> (c = CHR 0x0A \<and> (\<exists>r'. b @ paragraph_sep @ r = CHR 0x0A # r'))"
    using Cons.prems by (cases b) (auto simp: paragraph_sep_def)
  then show ?case using ih by (simp add: split_para_Cons del: py_split.simps(2))
qed

lemma split_join_wf:
  "wf_blocks bs \<Longrightarrow> bs \<noteq> [] \<Longrightarrow> py_split paragraph_sep (py_join paragraph_sep bs) = bs"
proof (induction bs)
  case Nil
  then show ?case by simp
next
  case (Cons b bs)
  show ?case
  proof (cases "bs = []")
    case True
    then show ?thesis using Cons.prems by (simp add: split_no_sep)
  next
    case False
    then show ?thesis
      using Cons by (simp add: py_join_Cons split_block_sep wf_blocks_Cons)
  qed
qed

lemma wf_blocks_append: "wf_blocks (xs @ ys) \<Longrightarrow> wf_blocks xs \<and> wf_blocks ys"
  by (induction xs) (auto simp: wf_blocks_Cons)

section \<open>The chunker preserves the blocks\<close>

lemma chunk_loop_pieces:
  assumes "0 < max_tokens"
    and "list_all (\<lambda>b. get_token_count self b \<le> max_tokens) cur"
  shows "\<exists>pieces st. chunk_loop self max_tokens blocks (chunks, cur, tok) = Inr st
           \<and> finish st = chunks @ concat (map chunks_of_piece pieces)
           \<and> concat (map blocks_of_piece pieces) = cur @ blocks
           \<and> list_all (piece_ok self max_tokens) pieces"
  using assms(2)
proof (induction blocks arbitrary: chunks cur tok)
  case Nil
  show ?case
  proof (cases "cur = []")
    case True
    then show ?thesis by (intro exI[of _ "[]"]) (simp add: finish_def)
  next
    case False
    then show ?thesis using Nil by (intro exI[of _ "[Joined cur]"]) (simp add: finish_def)
  qed
next
  case (Cons block blocks)
  let ?flush = "chunks @ [py_join paragraph_sep cur]"
  show ?case
  proof (cases "get_token_count self block > max_tokens")
    case big: True
    obtain slices where sl: "force_split block (max_tokens * 3) = Inr slices" "concat slices = block"
      using force_split_pos[of "max_tokens * 3" block] assms(1) by auto
    show ?thesis
    proof (cases "cur = []")
      case True
      obtain pieces st where ih:
        "chunk_loop self max_tokens blocks (chunks @ slices, [], tok) = Inr st"
        "finish st = (chunks @ slices) @ concat (map chunks_of_piece pieces)"
        "concat (map blocks_of_piece pieces) = [] @ blocks"
        "list_all (piece_ok self max_tokens) pieces"
        using Cons.IH[of "[]" "chunks @ slices" tok] by auto
      show ?thesis
        using big True sl ih
        by (intro exI[of _ "Forced block slices # pieces"] exI[of _ st]) simp
    next
      case False
      obtain pieces st where ih:
        "chunk_loop self max_tokens blocks (?flush @ slices, [], 0) = Inr st"
        "finish st = (?flush @ slices) @ concat (map chunks_of_piece pieces)"
        "concat (map blocks_of_piece pieces) = [] @ blocks"
        "list_all (piece_ok self max_tokens) pieces"
        using Cons.IH[of "[]" "?flush @ slices" 0] by auto
      show ?thesis
        using big False sl ih Cons.prems
        by (intro exI[of _ "Joined cur # Forced block slices # pieces"] exI[of _ st]) simp
    qed
  next
    case small: False
    show ?thesis
    proof (cases "tok + get_token_count self block > max_tokens \<and> cur \<noteq> []")
      case True
      let ?tok = "0 + get_token_count self (py_join paragraph_sep ([] @ [block]))"
      have "list_all (\<lambda>b. get_token_count self b \<le> max_tokens) [block]"
        using small by simp
      then obtain pieces st where ih:
        "chunk_loop self max_tokens blocks (?flush, [block], ?tok) = Inr st"
        "finish st = ?flush @ concat (map chunks_of_piece pieces)"
        "concat (map blocks_of_piece pieces) = [block] @ blocks"
        "list_all (piece_ok self max_tokens) pieces"
        using Cons.IH[of "[block]" ?flush ?tok] by auto
      show ?thesis
        using small True ih Cons.prems
        by (intro exI[of _ "Joined cur # pieces"] exI[of _ st]) simp
    next
      case False
      let ?tok = "tok + get_token_count self (py_join paragraph_sep (cur @ [block]))"
      have "list_all (\<lambda>b. get_token_count self b \<le> max_tokens) (cur @ [block])"
        using small Cons.prems by simp
      then obtain pieces st where ih:
        "chunk_loop self max_tokens blocks (chunks, cur @ [block], ?tok) = Inr st"
        "finish st = chunks @ concat (map chunks_of_piece pieces)"
        "concat (map blocks_of_piece pieces) = (cur @ [block]) @ blocks"
        "list_all (piece_ok self max_tokens) pieces"
        using Cons.IH[of "cur @ [block]" chunks ?tok] by auto
      show ?thesis
        using small False ih
        by (intro exI[of _ pieces] exI[of _ st]) auto
    qed
  qed
qed

lemma group_of_split:
  assumes "concat (map blocks_of_piece pieces) = py_split paragraph_sep text"
    and "Joined bs \<in> set pieces" and "bs \<noteq> []"
  shows "py_split paragraph_sep (py_join paragraph_sep bs) = bs"
proof -
  obtain ps qs where "pieces = ps @ Joined bs # qs"
    using assms(2) by (meson split_list)
  then have "py_split paragraph_sep text
       = concat (map blocks_of_piece ps) @ bs @ concat (map blocks_of_piece qs)"
    using assms(1) by simp
  then have "wf_blocks (concat (map blocks_of_piece ps) @ bs @ concat (map blocks_of_piece qs))"
    using wf_blocks_split[of "text"] by simp
  then have "wf_blocks bs" using wf_blocks_append by blast
  then show ?thesis using assms(3) by (rule split_join_wf)
qed


section \<open>The chunk list as a sequence of pieces\<close>

lemma chunk_text_by_tokens_finish:
  "chunk_text_by_tokens self text max_tokens w =
     (case chunk_loop self max_tokens (py_split paragraph_sep text) ([], [], 0) of
        Inl e \<Rightarrow> (Inl e, w)
      | Inr st \<Rightarrow>
          (Inr (finish st),
           logger INFO
             (''Content was split into '' @ str_nat (length (finish st)) @ '' chunk(s).'') w))"
  by (auto simp: chunk_text_by_tokens_def finish_def Let_def split: sum.splits prod.splits)

lemma pieces_resplit:
  assumes "concat (map blocks_of_piece pieces) = py_split paragraph_sep text"
    and "list_all (piece_ok self max_tokens) pieces"
  shows "list_all piece_resplits pieces"
  unfolding list_all_iff
proof
  fix p assume p: "p \<in> set pieces"
  show "piece_resplits p"
  proof (cases p)
    case (Joined bs)
    then have "bs \<noteq> []" using assms(2) p by (auto simp: list_all_iff)
    then show ?thesis using group_of_split[OF assms(1)] p Joined by simp
  next
    case (Forced b ss)
    then show ?thesis by simp
  qed
qed

text \<open>
  Claim C3. For a positive budget the chunker returns a chunk list that is a sequence of
  pieces, in the order of the input: a piece is a non-empty run of consecutive blocks,
  none over the budget, emitted as one chunk that splits back into exactly these blocks,
  or one block over the budget, emitted as slices whose concatenation is the block. The
  blocks of the pieces, in order, are the blocks of the input: none is dropped, moved or
  repeated.
\<close>

theorem chunks_preserve_blocks:
  assumes "0 < max_tokens"
  shows "\<exists>pieces.
           fst (chunk_text_by_tokens self text max_tokens w)
             = Inr (concat (map chunks_of_piece pieces))
         \<and> concat (map blocks_of_piece pieces) = py_split paragraph_sep text
         \<and> list_all (piece_ok self max_tokens) pieces
         \<and> list_all piece_resplits pieces"
proof -
  obtain pieces st where l:
    "chunk_loop self max_tokens (py_split paragraph_sep text) ([], [], 0) = Inr st"
    "finish st = [] @ concat (map chunks_of_piece pieces)"
    "concat (map blocks_of_piece pieces) = [] @ py_split paragraph_sep text"
    "list_all (piece_ok self max_tokens) pieces"
    using chunk_loop_pieces[OF assms, of self "[]" "py_split paragraph_sep text" "[]" 0]
    by auto
  have "list_all piece_resplits pieces"
    using pieces_resplit[of pieces "text" self max_tokens] l by simp
  then show ?thesis
    using l by (intro exI[of _ pieces]) (simp add: chunk_text_by_tokens_finish)
qed

lemma demo_simps:
  "encoding (demo_extractor c budget) = demo_encoding"
  "MAX_INPUT_TOKENS (demo_extractor c budget) = budget"
  "client (demo_extractor c budget) = c"
  "model_name (demo_extractor c budget) = ''gpt-4o''"
  by (simp_all add: demo_extractor_def)

text \<open>
  The statement of C3 at a text of four blocks, the second over a budget of 2 tokens.
\<close>

theorem chunks_preserve_blocks_witness:
  "(0::int) < 2
   \<and> fst (chunk_text_by_tokens demo ''a\<newline>\<newline>bcdefghijkl\<newline>\<newline>c\<newline>\<newline>d'' 2 world0)
       = Inr (concat (map chunks_of_piece
           [Joined [''a''], Forced ''bcdefghijkl'' [''bcdefg'', ''hijkl''], Joined [''c'', ''d'']]))
   \<and> concat (map blocks_of_piece
           [Joined [''a''], Forced ''bcdefghijkl'' [''bcdefg'', ''hijkl''], Joined [''c'', ''d'']])
       = py_split paragraph_sep ''a\<newline>\<newline>bcdefghijkl\<newline>\<newline>c\<newline>\<newline>d''"
proof -
  have h: "(0::int) < 2" by simp
  have e1: "fst (chunk_text_by_tokens demo ''a\<newline>\<newline>bcdefghijkl\<newline>\<newline>c\<newline>\<newline>d'' 2 world0)
       = Inr [''a'', ''bcdefg'', ''hijkl'', ''c\<newline>\<newline>d'']"
    by code_simp
  have e2: "py_split paragraph_sep ''a\<newline>\<newline>bcdefghijkl\<newline>\<newline>c\<newline>\<newline>d''
       = [''a'', ''bcdefghijkl'', ''c'', ''d'']"
    by code_simp
  show ?thesis
    using chunks_preserve_blocks[OF h, of demo "''a\<newline>\<newline>bcdefghijkl\<newline>\<newline>c\<newline>\<newline>d''" world0] e1 e2
    by (simp add: paragraph_sep_def)
qed

lemma str_nat_1: "str_nat (Suc 0) = ''1''"
  by code_simp

section \<open>The chunker on the empty text, and the budget\<close>

text \<open>
  Claim C9, amended. The empty text splits into one empty block, so for a positive
  budget (and a tokenizer that gives the empty text no token) the chunker returns one
  chunk, the empty string, not the empty sequence. The method \<^verbatim>\<open>extract\<close> returns before
  the chunker on a blank text.
\<close>

theorem empty_text_one_empty_chunk:
  assumes "encoding self [] = []" and "0 < max_tokens"
  shows "chunk_text_by_tokens self [] max_tokens w
           = (Inr [[]], logger INFO ''Content was split into 1 chunk(s).'' w)"
  using assms
  by (simp add: chunk_text_by_tokens_def get_token_count_def str_nat_1)

text \<open>The amended C9 at the budget 5.\<close>

theorem empty_text_one_empty_chunk_witness:
  "encoding demo [] = [] \<and> (0::int) < 5
   \<and> chunk_text_by_tokens demo [] 5 world0
       = (Inr [[]], logger INFO ''Content was split into 1 chunk(s).'' world0)"
proof -
  have h1: "encoding demo [] = []" by (simp add: demo_def demo_simps)
  have h2: "(0::int) < 5" by simp
  show ?thesis using h1 h2 empty_text_one_empty_chunk[OF h1 h2, of world0] by simp
qed

text \<open>Claim C9 as stated fails: at the budget 1 the chunk list of the empty text is not empty.\<close>

theorem empty_text_counterexample:
  "fst (chunk_text_by_tokens demo [] 1 world0) \<noteq> Inr []"
  by code_simp

text \<open>
  Claim C1 on a failing input. The blocks \<^verbatim>\<open>a\<close> and \<^verbatim>\<open>b\<close> have one token each, so at the
  budget 2 neither is force-split and the test before appending \<^verbatim>\<open>b\<close> passes
  (\<open>1 + 1\<close> is not above 2); the chunk emitted has 3 tokens, since the separator was
  never counted.
\<close>

theorem chunk_exceeds_budget:
  "get_token_count demo ''a'' = 1 \<and> get_token_count demo ''b'' = 1
   \<and> fst (chunk_text_by_tokens demo ''a\<newline>\<newline>b'' 2 world0) = Inr [''a\<newline>\<newline>b'']
   \<and> get_token_count demo ''a\<newline>\<newline>b'' = 3"
  by code_simp

text \<open>
  Claim C2 on a failing input. The text has 7 tokens and the budget is 7, yet two chunks
  come back: the running count adds the count of the whole joined chunk to the previous
  total at every block (1, then 1 + 3, then 4 + 5), so it is 9 when the last block
  arrives.
\<close>

theorem small_text_two_chunks:
  "get_token_count demo ''a\<newline>\<newline>b\<newline>\<newline>c\<newline>\<newline>d'' = 7
   \<and> fst (chunk_text_by_tokens demo ''a\<newline>\<newline>b\<newline>\<newline>c\<newline>\<newline>d'' 7 world0)
       = Inr [''a\<newline>\<newline>b\<newline>\<newline>c'', ''d'']"
  by code_simp



section \<open>The response parser\<close>

lemma calls_logger [simp]: "calls (logger lvl msg w) = calls w"
  by (simp add: logger_def)

lemma logs_logger [simp]: "logs (logger lvl msg w) = logs w @ [(lvl, msg)]"
  by (simp add: logger_def)

lemma calls_parse_llm_output [simp]:
  "calls (snd (parse_llm_output js response_text w)) = calls w"
  by (simp add: parse_llm_output_def split: sum.splits py_error.splits json.splits option.splits)

lemma fst_parse_llm_output_world:
  "fst (parse_llm_output js response_text w) = fst (parse_llm_output js response_text w')"
  by (auto simp: parse_llm_output_def split: sum.splits py_error.splits json.splits option.splits)

lemma calls_call_llm [simp]:
  "calls (snd (call_llm self content system_prompt w))
     = calls w @ [mk_request self system_prompt content]"
  by (simp add: call_llm_def Let_def split: api_outcome.splits)

text \<open>A call that raises returns the empty string.\<close>

lemma call_llm_failure:
  "\<forall>t. client self (calls w) (mk_request self system_prompt content) \<noteq> Completion t
     \<Longrightarrow> fst (call_llm self content system_prompt w) = []"
  by (simp add: call_llm_def Let_def split: api_outcome.splits)


lemma parse_llm_output_raises_iff:
  "fst (parse_llm_output js response_text w) = Inl e
     \<longleftrightarrow> response_text \<noteq> [] \<and> loads js response_text = Inl e \<and> e \<noteq> JSONDecodeError"
  by (auto simp: parse_llm_output_def split: sum.splits py_error.splits json.splits option.splits)

text \<open>
  Claim C7, amended. The parser returns the empty sequence on the empty string, without a
  log entry, and on every text on which the decoder raises \<^verbatim>\<open>JSONDecodeError\<close>, with
  one error logged. It raises exactly when the text is not empty and the decoder raises
  another exception, which no handler of the method catches: the exception of the decoder
  is then the exception of the parser.
\<close>

theorem parse_raises_what_loads_raises:
  "parse_llm_output js [] w = (Inr [], w)
   \<and> (loads js response_text = Inl JSONDecodeError \<longrightarrow>
        parse_llm_output js response_text w =
          (Inr [], if response_text = [] then w
                   else logger ERROR
                          (''Failed to decode JSON from LLM response: '' @ response_text) w))
   \<and> (fst (parse_llm_output js response_text w) = Inl e
        \<longleftrightarrow> response_text \<noteq> [] \<and> loads js response_text = Inl e \<and> e \<noteq> JSONDecodeError)"
  by (simp add: parse_llm_output_raises_iff) (simp add: parse_llm_output_def)

text \<open>The decoder of the theory on an integer literal of more than 4300 digits.\<close>

lemma is_digit_1: "is_digit CHR ''1''"
  by (simp add: is_digit_def)

lemma parse_number_long:
  "4300 < Suc n \<Longrightarrow> parse_number (CHR ''1'' # replicate n CHR ''1'') = Inl ValueError"
  by (simp add: parse_number_def Let_def is_digit_1 takeWhile_replicate)

lemma json_loads_long:
  assumes "4300 < Suc n"
  shows "json_loads (CHR ''1'' # replicate n CHR ''1'') = Inl ValueError"
proof -
  have "skip_ws (CHR ''1'' # replicate n CHR ''1'') = CHR ''1'' # replicate n CHR ''1''"
    by (simp add: skip_ws_def is_ws_def)
  moreover have "parse_value (Suc f) (CHR ''1'' # replicate n CHR ''1'') = Inl ValueError" for f
    using parse_number_long[OF assms] by simp
  ultimately show ?thesis by (simp add: json_loads_def)
qed

lemma long_integer_text_Cons: "long_integer_text = CHR ''1'' # replicate 4300 CHR ''1''"
proof -
  have "(4301::nat) = Suc 4300" by simp
  then show ?thesis unfolding long_integer_text_def by (simp only: replicate.simps)
qed

text \<open>
  Claim C7 as stated fails: on an integer literal of 4301 digits the decoder raises
  \<^verbatim>\<open>ValueError\<close>, and so does the parser.
\<close>

theorem long_integer_counterexample:
  "fst (parse_llm_output py_json long_integer_text world0) = Inl ValueError"
proof -
  have "loads py_json long_integer_text = Inl ValueError"
    unfolding long_integer_text_Cons using json_loads_long[of 4300] by (simp add: py_json_def)
  then show ?thesis
    by (simp add: parse_llm_output_raises_iff long_integer_text_Cons)
qed

text \<open>The amended C7 at the text \<^verbatim>\<open>not json\<close>, on which the decoder raises \<^verbatim>\<open>JSONDecodeError\<close>.\<close>

theorem parse_raises_what_loads_raises_witness:
  "loads py_json ''not json'' = Inl JSONDecodeError
   \<and> parse_llm_output py_json [] world0 = (Inr [], world0)
   \<and> parse_llm_output py_json ''not json'' world0 =
       (Inr [], logger ERROR ''Failed to decode JSON from LLM response: not json'' world0)"
proof -
  have h: "loads py_json ''not json'' = Inl JSONDecodeError" by code_simp
  note t = parse_raises_what_loads_raises[of py_json world0 "''not json''" JSONDecodeError]
  have c2: "parse_llm_output py_json ''not json'' world0 =
       (Inr [], logger ERROR ''Failed to decode JSON from LLM response: not json'' world0)"
    using conjunct1[OF conjunct2[OF t]] h by simp
  show ?thesis using h conjunct1[OF t] c2 by (intro conjI)
qed

text \<open>
  Claim C6, amended. For a text that decodes to a mapping with no list value and with the
  key \<^verbatim>\<open>module\<close>, the parser wraps the mapping in a one-element sequence and logs a
  warning exactly when the mapping has the key \<^verbatim>\<open>Description\<close>, spelled as the prompts
  ask for it; otherwise it returns the empty sequence and logs that no module list could
  be parsed.
\<close>

theorem single_object_needs_Description:
  assumes "response_text \<noteq> []"
    and "loads js response_text = Inr (JDict items)"
    and "first_list_value items = None"
    and "''module'' \<in> set (map fst items)"
  shows "parse_llm_output js response_text w =
           (if ''Description'' \<in> set (map fst items)
            then (Inr [JDict items],
                  logger WARNING
                    ''LLM returned a single module object, wrapping it in a list.'' w)
            else (Inr [],
                  logger WARNING
                    (''Could not parse a valid module list from LLM response: ''
                       @ response_text) w))"
  using assms by (simp add: parse_llm_output_def)

text \<open>The amended C6 at the object with the keys of the prompts: it is wrapped.\<close>

theorem single_object_needs_Description_witness:
  "single_module_text \<noteq> []
   \<and> loads py_json single_module_text
       = Inr (JDict [(''module'', JStr ''A''), (''Description'', JStr ''d''),
                     (''Submodules'', JDict [])])
   \<and> first_list_value [(''module'', JStr ''A''), (''Description'', JStr ''d''),
                        (''Submodules'', JDict [])] = None
   \<and> parse_llm_output py_json single_module_text world0 =
       (Inr [JDict [(''module'', JStr ''A''), (''Description'', JStr ''d''),
                    (''Submodules'', JDict [])]],
        logger WARNING ''LLM returned a single module object, wrapping it in a list.'' world0)"
proof -
  let ?items = "[(''module'', JStr ''A''), (''Description'', JStr ''d''),
                 (''Submodules'', JDict [])]"
  have h1: "single_module_text \<noteq> []" by (simp add: single_module_text_def)
  have h2: "loads py_json single_module_text = Inr (JDict ?items)" by code_simp
  have h3: "first_list_value ?items = None" by simp
  have h4: "''module'' \<in> set (map fst ?items)" by simp
  show ?thesis
    using h1 h2 h3 single_object_needs_Description[OF h1 h2 h3 h4, of world0] by simp
qed

text \<open>
  Claim C6 as stated fails: on its text, whose key is \<^verbatim>\<open>description\<close>, the parser returns
  the empty sequence.
\<close>

theorem lowercase_description_counterexample:
  "parse_llm_output py_json claimed_module_text world0 =
     (Inr [], logger WARNING
            (''Could not parse a valid module list from LLM response: '' @ claimed_module_text)
            world0)"
proof -
  let ?items = "[(''module'', JStr ''A''), (''description'', JStr ''d''),
                 (''submodules'', JDict [])]"
  have h1: "claimed_module_text \<noteq> []" by (simp add: claimed_module_text_def)
  have h2: "loads py_json claimed_module_text = Inr (JDict ?items)" by code_simp
  show ?thesis using h1 h2 by (simp add: parse_llm_output_def)
qed

section \<open>Blank input\<close>

lemma py_strip_blank:
  assumes "list_all isspace s"
  shows "py_strip s = []"
proof -
  have e: "dropWhile isspace s = []"
    using assms by (simp add: list_all_iff)
  show ?thesis unfolding py_strip_def e by simp
qed

text \<open>
  Claim C8. On a text that is empty or all whitespace, \<^verbatim>\<open>extract\<close> returns the empty
  list, logs one warning and makes no request.
\<close>

theorem blank_text_returns_at_once:
  assumes "list_all isspace consolidated_text"
  shows "extract_modules self js consolidated_text w =
           (Inr (JList []),
            logger WARNING ''Extractor received empty text. Nothing to process.'' w)
       \<and> calls (snd (extract_modules self js consolidated_text w)) = calls w"
  using py_strip_blank[OF assms] by (simp add: extract_modules_def)

text \<open>C8 at a text of spaces and a newline.\<close>

theorem blank_text_returns_at_once_witness:
  "list_all isspace '' \<newline>  ''
   \<and> extract_modules demo py_json '' \<newline>  '' world0 =
       (Inr (JList []),
        logger WARNING ''Extractor received empty text. Nothing to process.'' world0)
   \<and> calls (snd (extract_modules demo py_json '' \<newline>  '' world0)) = []"
proof -
  have h: "list_all isspace '' \<newline>  ''" by (simp add: isspace_def)
  show ?thesis
    using h blank_text_returns_at_once[OF h, of demo py_json world0]
    by (simp add: world0_def)
qed

section \<open>The two passes\<close>

text \<open>
  With a budget other than 0 the chunker returns: the only raise in it is the zero step of
  the force-split.
\<close>

lemma force_split_nonzero:
  "char_limit \<noteq> 0 \<Longrightarrow> \<exists>slices. force_split block char_limit = Inr slices"
  by (simp add: force_split_def py_range_def)

lemma chunk_loop_total:
  "max_tokens \<noteq> 0 \<Longrightarrow> \<exists>st. chunk_loop self max_tokens blocks st0 = Inr st"
proof (induction blocks arbitrary: st0)
  case Nil
  then show ?case by (cases st0) auto
next
  case (Cons block blocks)
  obtain chunks cur tok where st0: "st0 = (chunks, cur, tok)" by (cases st0) auto
  obtain slices where sl: "force_split block (max_tokens * 3) = Inr slices"
    using force_split_nonzero[of "max_tokens * 3" block] Cons.prems by auto
  show ?case
    unfolding st0 using Cons.IH[OF Cons.prems] sl
    by (simp add: Let_def)
qed

lemma chunk_text_by_tokens_total:
  "max_tokens \<noteq> 0 \<Longrightarrow>
   \<exists>chunks. chunk_text_by_tokens self text max_tokens w =
     (Inr chunks,
      logger INFO (''Content was split into '' @ str_nat (length chunks) @ '' chunk(s).'') w)"
  using chunk_loop_total[of max_tokens self "py_split paragraph_sep text" "([], [], 0)"]
  by (auto simp: chunk_text_by_tokens_finish)

lemma calls_chunk_text_by_tokens:
  "calls (snd (chunk_text_by_tokens self text max_tokens w)) = calls w"
  by (simp add: chunk_text_by_tokens_finish split: sum.splits)

lemma fst_call_llm: 
  "fst (call_llm self content system_prompt w)
     = reply_text self (calls w) (mk_request self system_prompt content)"
  by (simp add: call_llm_def reply_text_def Let_def split: api_outcome.splits)

lemma parse_llm_output_records:
  assumes "parse_llm_output js response_text w = (Inr records, w')"
  shows "records = parsed_records js response_text"
proof -
  have "fst (parse_llm_output js response_text w) = Inr records"
    unfolding assms by simp
  then have "fst (parse_llm_output js response_text world0) = Inr records"
    unfolding fst_parse_llm_output_world[of js response_text world0 w] .
  then show ?thesis unfolding parsed_records_def by simp
qed

text \<open>
  One round of the loop of Pass 1, when the loop returns: the records of the chunk are
  appended and the request is recorded.
\<close>

lemma pass1_loop_Cons:
  assumes "pass1_loop self js prompt n i (chunk # chunks) acc w = (Inr raw, w2)"
  shows "\<exists>w3. calls w3 = calls w @ [mk_request self prompt chunk]
           \<and> pass1_loop self js prompt n (Suc i) chunks
                (acc @ parsed_records js (reply_text self (calls w) (mk_request self prompt chunk)))
                w3 = (Inr raw, w2)"
proof -
  define w1 where "w1 = logger INFO
               (''Processing chunk '' @ str_nat (i + 1) @ ''/'' @ str_nat n @ '' in Pass 1.'') w"
  let ?t = "reply_text self (calls w) (mk_request self prompt chunk)"
  have cw1: "calls w1 = calls w" by (simp add: w1_def)
  obtain t w2' where c: "call_llm self chunk prompt w1 = (t, w2')"
    by (cases "call_llm self chunk prompt w1") auto
  have "fst (call_llm self chunk prompt w1) = ?t"
    unfolding fst_call_llm cw1 ..
  then have t: "t = ?t" unfolding c by simp
  have "calls (snd (call_llm self chunk prompt w1)) = calls w1 @ [mk_request self prompt chunk]"
    by (rule calls_call_llm)
  then have cw: "calls w2' = calls w @ [mk_request self prompt chunk]"
    unfolding c cw1 by simp
  obtain r w3 where p: "parse_llm_output js t w2' = (r, w3)"
    by (cases "parse_llm_output js t w2'") auto
  have "calls (snd (parse_llm_output js t w2')) = calls w2'"
    by (rule calls_parse_llm_output)
  then have w3: "calls w3 = calls w2'" unfolding p by simp
  have unfold: "pass1_loop self js prompt n i (chunk # chunks) acc w =
      (case r of
         Inl e \<Rightarrow> (Inl e, w3)
       | Inr parsed \<Rightarrow>
           pass1_loop self js prompt n (i + 1) chunks
             (if parsed \<noteq> [] then acc @ parsed else acc) w3)"
    unfolding pass1_loop.simps w1_def[symmetric] Let_def c prod.case p ..
  show ?thesis
  proof (cases r)
    case (Inl e)
    then show ?thesis using assms unfolding unfold by simp
  next
    case (Inr parsed)
    have parsed: "parsed = parsed_records js ?t"
      using parse_llm_output_records[of js t w2' parsed w3] p Inr t by simp
    have "(if parsed \<noteq> [] then acc @ parsed else acc) = acc @ parsed" by simp
    then have "pass1_loop self js prompt n (Suc i) chunks (acc @ parsed) w3 = (Inr raw, w2)"
      using assms unfolding unfold Inr by simp
    then show ?thesis using w3 cw parsed by (intro exI[of _ w3]) simp
  qed
qed

lemma calls_pass1_loop:
  "pass1_loop self js prompt n i chunks acc w = (Inr raw, w2) \<Longrightarrow>
   calls w2 = calls w @ map (mk_request self prompt) chunks"
proof (induction chunks arbitrary: i acc w)
  case Nil
  then show ?case by simp
next
  case (Cons chunk chunks)
  obtain w3 where w3: "calls w3 = calls w @ [mk_request self prompt chunk]"
    and l: "pass1_loop self js prompt n (Suc i) chunks
              (acc @ parsed_records js (reply_text self (calls w) (mk_request self prompt chunk)))
              w3 = (Inr raw, w2)"
    using pass1_loop_Cons[OF Cons.prems] by blast
  show ?case using Cons.IH[OF l] w3 by simp
qed

text \<open>
  When the loop of Pass 1 returns, its list is the list it started with followed by the
  records of the chunks, in the order of the chunks.
\<close>

lemma pass1_loop_records:
  "pass1_loop self js get_extraction_prompt n i chunks acc w = (Inr raw, w2) \<Longrightarrow>
   raw = acc @ concat (chunk_records self js (calls w) chunks)"
proof (induction chunks arbitrary: i acc w)
  case Nil
  then show ?case by simp
next
  case (Cons chunk chunks)
  let ?req = "mk_request self get_extraction_prompt chunk"
  obtain w3 where w3: "calls w3 = calls w @ [?req]"
    and l: "pass1_loop self js get_extraction_prompt n (Suc i) chunks
              (acc @ parsed_records js (reply_text self (calls w) ?req)) w3 = (Inr raw, w2)"
    using pass1_loop_Cons[OF Cons.prems] by blast
  show ?case using Cons.IH[OF l] w3 by simp
qed



lemma pair_fst_snd: "fst p = a \<Longrightarrow> p = (a, snd p)"
  by (cases p) simp


text \<open>
  Claim C4. Let Pass 1 return the record list \<open>raw\<close>. When the serialised list has more
  tokens than the budget, \<^verbatim>\<open>extract\<close> returns \<open>raw\<close>, which is the concatenation, in
  the order of the chunks, of the records parsed from the reply to each chunk; and no
  request is made after Pass 1: the requests are one extraction request per chunk. What is
  returned is the decoded serialisation, so the statement asks of the json library that
  it decodes the serialised \<open>raw\<close> to \<open>raw\<close>, rejects the empty text and reads \<^verbatim>\<open>[]\<close> as
  the empty list.
\<close>

theorem oversize_raw_list_returned:
  assumes "py_strip text \<noteq> []"
    and "chunk_text_by_tokens self text (MAX_INPUT_TOKENS self)
           (logger INFO ''Starting Pass 1: Raw module extraction.'' w) = (Inr chunks, w1)"
    and "pass1_loop self js get_extraction_prompt (length chunks) 0 chunks [] w1
           = (Inr raw, w2)"
    and "get_token_count self (dumps js (JList raw)) > MAX_INPUT_TOKENS self"
    and "loads js (dumps js (JList raw)) = Inr (JList raw)"
    and "loads js [] = Inl JSONDecodeError"
    and "loads js ''[]'' = Inr (JList [])"
  shows "fst (extract_modules self js text w) = Inr (JList raw)
       \<and> raw = concat (chunk_records self js (calls w) chunks)
       \<and> calls (snd (extract_modules self js text w)) = calls w2
       \<and> calls w2 = calls w @ map (mk_request self get_extraction_prompt) chunks"
proof -
  have w1: "calls w1 = calls w"
    using calls_chunk_text_by_tokens[of self "text" "MAX_INPUT_TOKENS self"
        "logger INFO ''Starting Pass 1: Raw module extraction.'' w"] assms(2)
    by simp
  have w2: "calls w2 = calls w @ map (mk_request self get_extraction_prompt) chunks"
    using calls_pass1_loop[OF assms(3)] w1 by simp
  have records: "raw = concat (chunk_records self js (calls w) chunks)"
    using pass1_loop_records[OF assms(3)] w1 by simp
  have ne: "dumps js (JList raw) \<noteq> []"
    using assms(5) assms(6) by auto
  have raw_json: "extract_raw_modules_from_chunks self js text
                    (logger INFO ''Starting Pass 1: Raw module extraction.'' w)
                  = (Inr (dumps js (JList raw)), w2)"
    unfolding extract_raw_modules_from_chunks_def assms(2) prod.case sum.case assms(3) ..
  show ?thesis
  proof (cases "dumps js (JList raw) = ''[]''")
    case True
    then have "raw = []" using assms(5) assms(7) by simp
    then show ?thesis
      using assms(1) raw_json True w2 records by (simp add: extract_modules_def)
  next
    case False
    then show ?thesis
      using assms(1) assms(4) assms(5) raw_json ne w2 records
      by (simp add: extract_modules_def synthesize_and_clean_modules_def Let_def)
  qed
qed


lemma calls_world0: "calls world0 = []"
  by (simp add: world0_def)


text \<open>
  C4 at a text of two chunks and a budget of 10 tokens: the first chunk yields one record
  and the second two, and \<^verbatim>\<open>extract\<close> returns the three in that order.
\<close>

theorem oversize_raw_list_returned_witness:
  "py_strip two_page_text \<noteq> []
   \<and> get_token_count two_page (dumps py_json (JList (billing_raw @ search_raw)))
       > MAX_INPUT_TOKENS two_page
   \<and> loads py_json (dumps py_json (JList (billing_raw @ search_raw)))
       = Inr (JList (billing_raw @ search_raw))
   \<and> chunk_records two_page py_json [] [billing_text, search_text] = [billing_raw, search_raw]
   \<and> fst (extract_modules two_page py_json two_page_text world0)
       = Inr (JList (billing_raw @ search_raw))
   \<and> calls (snd (extract_modules two_page py_json two_page_text world0))
       = [mk_request two_page get_extraction_prompt billing_text,
          mk_request two_page get_extraction_prompt search_text]"
proof -
  let ?chunks = "[billing_text, search_text]"
  let ?raw = "billing_raw @ search_raw"
  let ?p1 = "pass1_loop two_page py_json get_extraction_prompt (length ?chunks) 0
               ?chunks [] after_chunking2"
  have h1: "py_strip two_page_text \<noteq> []" by code_simp
  have h2: "chunk_text_by_tokens two_page two_page_text (MAX_INPUT_TOKENS two_page)
              (logger INFO ''Starting Pass 1: Raw module extraction.'' world0)
            = (Inr ?chunks, after_chunking2)"
    by code_simp
  have "fst ?p1 = Inr ?raw" by code_simp
  then have h3: "?p1 = (Inr ?raw, snd ?p1)" by (rule pair_fst_snd)
  have h4: "get_token_count two_page (dumps py_json (JList ?raw)) > MAX_INPUT_TOKENS two_page"
    by code_simp
  have h5: "loads py_json (dumps py_json (JList ?raw)) = Inr (JList ?raw)"
    by code_simp
  have h6: "loads py_json [] = Inl JSONDecodeError" by code_simp
  have h7: "loads py_json ''[]'' = Inr (JList [])" by code_simp
  have r: "chunk_records two_page py_json [] ?chunks = [billing_raw, search_raw]"
    by code_simp
  note t = oversize_raw_list_returned[OF h1 h2 h3 h4 h5 h6 h7]
  have c1: "fst (extract_modules two_page py_json two_page_text world0) = Inr (JList ?raw)"
    by (rule conjunct1[OF t])
  have c2: "calls (snd (extract_modules two_page py_json two_page_text world0))
              = [mk_request two_page get_extraction_prompt billing_text,
                 mk_request two_page get_extraction_prompt search_text]"
    by (simp only: conjunct1[OF conjunct2[OF conjunct2[OF t]]]
        conjunct2[OF conjunct2[OF conjunct2[OF t]]] calls_world0 append_Nil list.map)
  show ?thesis
    using h1 h4 h5 r c1 c2 by (intro conjI)
qed




end
